theory Spec2Isabelle
  imports Main
begin

section \<open>audio2mp4: discovery of the two inputs and the ffmpeg invocation\<close>

text \<open>
  The program is one function, \<open>main\<close>, in \<open>audio2mp4.py\<close>. It lists the directory of
  the script, picks the first \<open>audio.*\<close> entry with an allowed audio extension and the
  first \<open>cover.*\<close> entry with an allowed image extension, and either reports what is
  missing or runs ffmpeg on the two files and reports how that went.

  The embedding makes the surroundings of \<open>main\<close> explicit:
  \<^item> a Python \<open>str\<close> is a \<open>string\<close>, the UTF-8 bytes of the text (the messages of the
    program are Japanese; their bytes are written out below);
  \<^item> the directory is the list of its entry names in the order in which the operating
    system enumerates them, which is the order \<open>Path.glob\<close> yields them in;
  \<^item> what the program does to the outside is a trace of events (a line printed, a line
    read, the external command run);
  \<^item> an exception is a value: the result of \<open>main\<close> is \<open>Inr ()\<close> when it returns and
    \<open>Inl e\<close> when the exception \<open>e\<close> leaves it.
  The library functions are those of pathlib on a POSIX system (case-sensitive matching,
  separator \<open>/\<close>). What the model leaves out: \<open>print\<close> always succeeds (the console
  accepts the text), resolving the directory of the script succeeds, and the process is
  not interrupted from outside (no \<open>KeyboardInterrupt\<close>), so every exception met while
  the command is started is an instance of \<open>Exception\<close>.
\<close>

subsection \<open>Strings\<close>

text \<open>
  \<open>str.lower\<close>, on the letters A to Z. Python lower-cases every cased code point, but
  outside ASCII the only one whose lower case is a single ASCII letter is the Kelvin
  sign, which gives k, and k is in none of the extensions below: membership of a
  lower-cased suffix in the two extension sets is the same.
\<close>

definition lower_char :: "char \<Rightarrow> char" where
  "lower_char c =
     (case map_of (zip ''ABCDEFGHIJKLMNOPQRSTUVWXYZ'' ''abcdefghijklmnopqrstuvwxyz'') c of
        Some l \<Rightarrow> l
      | None \<Rightarrow> c)"

definition lower :: "string \<Rightarrow> string" where
  "lower s = map lower_char s"

text \<open>\<open>s.rfind(c)\<close>: the highest index at which \<open>c\<close> occurs in \<open>s\<close>, or \<open>-1\<close>.\<close>

fun rfind :: "string \<Rightarrow> char \<Rightarrow> int" where
  "rfind [] c = - 1"
| "rfind (x # xs) c =
     (let r = rfind xs c in if 0 \<le> r then r + 1 else if x = c then 0 else - 1)"

subsection \<open>pathlib\<close>

text \<open>
  A path of the program is always an entry of the working directory: the directory and
  the name of the entry. \<open>str_path\<close> is \<open>str(p)\<close>: the separator is added unless the
  directory already ends in it, which after \<open>resolve()\<close> only a root does.
\<close>

datatype path = Path (parent: string) (name: string)

definition str_path :: "path \<Rightarrow> string" where
  "str_path p =
     (if parent p \<noteq> [] \<and> last (parent p) = CHR ''/'' then parent p @ name p
      else parent p @ ''/'' @ name p)"

text \<open>
  \<open>PurePath.suffix\<close>: the name from its last dot on, unless that dot is the first or the
  last character of the name, or there is none; then the suffix is empty. (This is
  CPython up to 3.13; from 3.14 on a name that ends in a dot has the suffix \<open>.\<close>, which
  is in neither allow-set, so the selection is the same.)
\<close>

definition suffix :: "path \<Rightarrow> string" where
  "suffix p =
     (let n = name p; i = rfind n CHR ''.''
      in if 0 < i \<and> i < int (length n) - 1 then drop (nat i) n else [])"

text \<open>\<open>PurePath.stem\<close>: the name without its suffix.\<close>

definition stem :: "path \<Rightarrow> string" where
  "stem p =
     (let n = name p; i = rfind n CHR ''.''
      in if 0 < i \<and> i < int (length n) - 1 then take (nat i) n else n)"

text \<open>
  \<open>fnmatch\<close> of a name against a pattern, for patterns without a bracket expression
  (the two patterns of the program have none): \<open>*\<close> stands for any string, \<open>?\<close> for any
  one character, every other character for itself.
\<close>

fun fnmatch :: "string \<Rightarrow> string \<Rightarrow> bool" where
  "fnmatch [] [] = True"
| "fnmatch (c # cs) [] = False"
| "fnmatch [] (p # ps) = (p = CHR ''*'' \<and> fnmatch [] ps)"
| "fnmatch (c # cs) (p # ps) =
     (if p = CHR ''*'' then fnmatch (c # cs) ps \<or> fnmatch cs (p # ps)
      else (p = CHR ''?'' \<or> c = p) \<and> fnmatch cs ps)"

text \<open>
  \<open>base_dir.glob(pattern)\<close> for a pattern of one component: the entries of the directory
  whose name matches, in enumeration order, as paths below the directory.
\<close>

definition glob :: "string \<Rightarrow> string list \<Rightarrow> string \<Rightarrow> path list" where
  "glob dir names pattern = map (Path dir) (filter (\<lambda>n. fnmatch n pattern) names)"

text \<open>\<open>next(iterator, None)\<close>: the first element, or \<open>None\<close> when there is none.\<close>

fun next_or_None :: "'a list \<Rightarrow> 'a option" where
  "next_or_None [] = None"
| "next_or_None (x # xs) = Some x"

subsection \<open>Configuration\<close>

definition OUTPUT_FILENAME :: string where
  "OUTPUT_FILENAME = ''movie.mp4''"

definition AUDIO_EXTS :: "string set" where
  "AUDIO_EXTS = {''.mp3'', ''.wav'', ''.m4a'', ''.flac'', ''.aac'', ''.ogg''}"

definition IMAGE_EXTS :: "string set" where
  "IMAGE_EXTS = {''.jpg'', ''.jpeg'', ''.png'', ''.bmp'', ''.gif''}"

subsection \<open>The outside of the program\<close>

text \<open>
  What \<open>subprocess.run\<close> meets when it starts the command: the tool runs and exits with a
  status, or the call fails in another way (the binary is not found, permission is
  denied, ...) with an exception whose \<open>str()\<close> is the given description.
\<close>

datatype tool_outcome = Exit int | Fails string

text \<open>
  The environment of one run: the resolved directory of the script, the names in it,
  what the external tool does with a command, and the line standard input holds for
  \<open>input()\<close> (\<open>None\<close> at end of file).
\<close>

record env =
  base_dir :: string
  entries :: "string list"
  tool :: "string list \<Rightarrow> tool_outcome"
  stdin :: "string option"

datatype event = Print string | Input string | Run "string list"

text \<open>
  What \<open>subprocess.run(cmd, check=True)\<close> may raise: \<open>CalledProcessError\<close> for a
  non-zero exit status, or an instance of another class of \<open>Exception\<close> whose \<open>str()\<close>
  is the given description.
\<close>

datatype run_error = CalledProcessError int | OtherException string

text \<open>
  The exceptions that no statement of \<open>main\<close> catches: \<open>EOFError\<close> from \<open>input\<close>, and
  \<open>AttributeError\<close> from \<open>.name\<close> on \<open>None\<close>.
\<close>

datatype py_exception = EOFError | AttributeError

record run =
  trace :: "event list"
  result :: "py_exception + unit"

definition subprocess_run :: "env \<Rightarrow> string list \<Rightarrow> run_error + unit" where
  "subprocess_run e c =
     (case tool e c of
        Exit rc \<Rightarrow> if rc \<noteq> 0 then Inl (CalledProcessError rc) else Inr ()
      | Fails d \<Rightarrow> Inl (OtherException d))"

text \<open>
  \<open>input(prompt)\<close> as the last statement of a path: the events so far, the read, and
  the result of the path. At end of file \<open>input\<close> raises \<open>EOFError\<close>.
\<close>

definition input :: "env \<Rightarrow> event list \<Rightarrow> string \<Rightarrow> run" where
  "input e t prompt =
     \<lparr>trace = t @ [Input prompt],
      result = (case stdin e of None \<Rightarrow> Inl EOFError | Some l \<Rightarrow> Inr ())\<rparr>"

text \<open>
  The exit status of the process: \<open>main()\<close> is the last statement of the script, so the
  status is 0 when it returns and 1 when an exception leaves it.
\<close>

definition exit_status :: "run \<Rightarrow> nat" where
  "exit_status r = (case result r of Inr u \<Rightarrow> 0 | Inl x \<Rightarrow> 1)"

subsection \<open>The messages\<close>

text \<open>The heading of the first line (an open-folder emoji and "working directory: "), printed before the directory.\<close>

definition msg_workdir :: string where
  "msg_workdir =
     [CHR 0xF0, CHR 0x9F, CHR 0x93, CHR 0x82] @ '' '' @ [CHR 0xE4, CHR 0xBD, CHR 0x9C,
     CHR 0xE6, CHR 0xA5, CHR 0xAD, CHR 0xE3, CHR 0x83, CHR 0x87, CHR 0xE3, CHR 0x82,
     CHR 0xA3, CHR 0xE3, CHR 0x83, CHR 0xAC, CHR 0xE3, CHR 0x82, CHR 0xAF, CHR 0xE3,
     CHR 0x83, CHR 0x88, CHR 0xE3, CHR 0x83, CHR 0xAA] @ '': ''"

text \<open>The audio label of the missing list: "audio file (audio.mp3, audio.wav etc.)".\<close>

definition label_audio :: string where
  "label_audio =
     [CHR 0xE9, CHR 0x9F, CHR 0xB3, CHR 0xE5, CHR 0xA3, CHR 0xB0, CHR 0xE3, CHR 0x83,
     CHR 0x95, CHR 0xE3, CHR 0x82, CHR 0xA1, CHR 0xE3, CHR 0x82, CHR 0xA4, CHR 0xE3,
     CHR 0x83, CHR 0xAB] @ '' (audio.mp3, audio.wav '' @ [CHR 0xE7, CHR 0xAD, CHR 0x89]
     @ '')''"

text \<open>The image label of the missing list: "image file (cover.jpg, cover.png etc.)".\<close>

definition label_image :: string where
  "label_image =
     [CHR 0xE7, CHR 0x94, CHR 0xBB, CHR 0xE5, CHR 0x83, CHR 0x8F, CHR 0xE3, CHR 0x83,
     CHR 0x95, CHR 0xE3, CHR 0x82, CHR 0xA1, CHR 0xE3, CHR 0x82, CHR 0xA4, CHR 0xE3,
     CHR 0x83, CHR 0xAB] @ '' (cover.jpg, cover.png '' @ [CHR 0xE7, CHR 0xAD, CHR 0x89]
     @ '')''"

text \<open>The heading of the missing-input diagnostic: a cross mark and "required files not found:".\<close>

definition msg_missing :: string where
  "msg_missing =
     [CHR 0xE2, CHR 0x9D, CHR 0x8C] @ '' '' @ [CHR 0xE5, CHR 0xBF, CHR 0x85, CHR 0xE8,
     CHR 0xA6, CHR 0x81, CHR 0xE3, CHR 0x81, CHR 0xAA, CHR 0xE3, CHR 0x83, CHR 0x95,
     CHR 0xE3, CHR 0x82, CHR 0xA1, CHR 0xE3, CHR 0x82, CHR 0xA4, CHR 0xE3, CHR 0x83,
     CHR 0xAB, CHR 0xE3, CHR 0x81, CHR 0x8C, CHR 0xE8, CHR 0xA6, CHR 0x8B, CHR 0xE3,
     CHR 0x81, CHR 0xA4, CHR 0xE3, CHR 0x81, CHR 0x8B, CHR 0xE3, CHR 0x82, CHR 0x8A,
     CHR 0xE3, CHR 0x81, CHR 0xBE, CHR 0xE3, CHR 0x81, CHR 0x9B, CHR 0xE3, CHR 0x82,
     CHR 0x93] @ '':''"

text \<open>The prompt of both acknowledgment reads: a newline and "press the Enter key to exit...".\<close>

definition msg_prompt :: string where
  "msg_prompt =
     [CHR 0x0A, CHR 0xE3, CHR 0x82, CHR 0xA8, CHR 0xE3, CHR 0x83, CHR 0xB3, CHR 0xE3,
     CHR 0x82, CHR 0xBF, CHR 0xE3, CHR 0x83, CHR 0xBC, CHR 0xE3, CHR 0x82, CHR 0xAD,
     CHR 0xE3, CHR 0x83, CHR 0xBC, CHR 0xE3, CHR 0x82, CHR 0x92, CHR 0xE6, CHR 0x8A,
     CHR 0xBC, CHR 0xE3, CHR 0x81, CHR 0x97, CHR 0xE3, CHR 0x81, CHR 0xA6, CHR 0xE7,
     CHR 0xB5, CHR 0x82, CHR 0xE4, CHR 0xBA, CHR 0x86] @ ''...''"

text \<open>A note emoji and "found: ", printed before the name of the audio file.\<close>

definition msg_found_audio :: string where
  "msg_found_audio =
     [CHR 0xF0, CHR 0x9F, CHR 0x8E, CHR 0xB5] @ '' '' @ [CHR 0xE7, CHR 0x99, CHR 0xBA,
     CHR 0xE8, CHR 0xA6, CHR 0x8B] @ '': ''"

text \<open>A picture emoji and "found: ", printed before the name of the image file.\<close>

definition msg_found_image :: string where
  "msg_found_image =
     [CHR 0xF0, CHR 0x9F, CHR 0x96, CHR 0xBC, CHR 0xEF, CHR 0xB8, CHR 0x8F] @ ''  ''
     @ [CHR 0xE7, CHR 0x99, CHR 0xBA, CHR 0xE8, CHR 0xA6, CHR 0x8B] @ '': ''"

text \<open>A camera emoji and "creating: ", printed before the output file name.\<close>

definition msg_create :: string where
  "msg_create =
     [CHR 0xF0, CHR 0x9F, CHR 0x8E, CHR 0xA5] @ '' '' @ [CHR 0xE4, CHR 0xBD, CHR 0x9C,
     CHR 0xE6, CHR 0x88, CHR 0x90] @ '': ''"

text \<open>The success banner: a check mark and "conversion succeeded!: ", printed before the name of the output file.\<close>

definition msg_success :: string where
  "msg_success =
     [CHR 0xE2, CHR 0x9C, CHR 0x85] @ '' '' @ [CHR 0xE5, CHR 0xA4, CHR 0x89, CHR 0xE6,
     CHR 0x8F, CHR 0x9B, CHR 0xE6, CHR 0x88, CHR 0x90, CHR 0xE5, CHR 0x8A, CHR 0x9F,
     CHR 0xEF, CHR 0xBC, CHR 0x81] @ '': ''"

text \<open>The tool-failure diagnostic: a newline, a cross mark and "an FFmpeg error occurred.".\<close>

definition msg_ffmpeg_error :: string where
  "msg_ffmpeg_error =
     [CHR 0x0A, CHR 0xE2, CHR 0x9D, CHR 0x8C] @ '' FFmpeg'' @ [CHR 0xE3, CHR 0x81,
     CHR 0xAE, CHR 0xE3, CHR 0x82, CHR 0xA8, CHR 0xE3, CHR 0x83, CHR 0xA9, CHR 0xE3,
     CHR 0x83, CHR 0xBC, CHR 0xE3, CHR 0x81, CHR 0x8C, CHR 0xE7, CHR 0x99, CHR 0xBA,
     CHR 0xE7, CHR 0x94, CHR 0x9F, CHR 0xE3, CHR 0x81, CHR 0x97, CHR 0xE3, CHR 0x81,
     CHR 0xBE, CHR 0xE3, CHR 0x81, CHR 0x97, CHR 0xE3, CHR 0x81, CHR 0x9F, CHR 0xE3,
     CHR 0x80, CHR 0x82]"

text \<open>The generic diagnostic: a newline, a cross mark and "unexpected error: ", printed before the description of the fault.\<close>

definition msg_unexpected :: string where
  "msg_unexpected =
     [CHR 0x0A, CHR 0xE2, CHR 0x9D, CHR 0x8C] @ '' '' @ [CHR 0xE4, CHR 0xBA, CHR 0x88,
     CHR 0xE6, CHR 0x9C, CHR 0x9F, CHR 0xE3, CHR 0x81, CHR 0x9B, CHR 0xE3, CHR 0x81,
     CHR 0xAC, CHR 0xE3, CHR 0x82, CHR 0xA8, CHR 0xE3, CHR 0x83, CHR 0xA9, CHR 0xE3,
     CHR 0x83, CHR 0xBC] @ '': ''"

subsection \<open>main\<close>

text \<open>
  The two generators of the discovery steps: the matches of the pattern, in enumeration
  order, whose lower-cased suffix is in the allow-set.
\<close>

definition audio_candidates :: "env \<Rightarrow> path list" where
  "audio_candidates e =
     filter (\<lambda>p. lower (suffix p) \<in> AUDIO_EXTS) (glob (base_dir e) (entries e) ''audio.*'')"

definition image_candidates :: "env \<Rightarrow> path list" where
  "image_candidates e =
     filter (\<lambda>p. lower (suffix p) \<in> IMAGE_EXTS) (glob (base_dir e) (entries e) ''cover.*'')"

text \<open>The two discovery steps take the first element of their generator.\<close>

definition audio_path :: "env \<Rightarrow> path option" where
  "audio_path e = next_or_None (audio_candidates e)"

definition image_path :: "env \<Rightarrow> path option" where
  "image_path e = next_or_None (image_candidates e)"

text \<open>The list of missing categories, audio first.\<close>

definition missing :: "path option \<Rightarrow> path option \<Rightarrow> string list" where
  "missing a i =
     (if a = None then [label_audio] else []) @ (if i = None then [label_image] else [])"

text \<open>The ffmpeg command, for the audio, the image and the output path.\<close>

definition cmd :: "path \<Rightarrow> path \<Rightarrow> path \<Rightarrow> string list" where
  "cmd a i out =
     [''ffmpeg'',
      ''-y'',
      ''-loop'', ''1'',
      ''-i'', str_path i,
      ''-i'', str_path a,
      ''-c:v'', ''libx264'',
      ''-tune'', ''stillimage'',
      ''-c:a'', ''aac'',
      ''-b:a'', ''192k'',
      ''-pix_fmt'', ''yuv420p'',
      ''-vf'', ''pad=ceil(iw/2)*2:ceil(ih/2)*2'',
      ''-shortest'',
      str_path out]"

text \<open>
  The \<open>try\<close> statement: the call, the banner after it, and the two handlers. Each
  handler only prints, so control always reaches the statement after the \<open>try\<close>.
\<close>

definition try_run :: "env \<Rightarrow> string list \<Rightarrow> path \<Rightarrow> event list" where
  "try_run e c out =
     Run c #
     (case subprocess_run e c of
        Inr u \<Rightarrow>
          [Print ([CHR 0x0A] @ replicate 40 CHR ''=''),
           Print (msg_success @ name out),
           Print (replicate 40 CHR ''='')]
      | Inl (CalledProcessError rc) \<Rightarrow> [Print msg_ffmpeg_error]
      | Inl (OtherException d) \<Rightarrow> [Print (msg_unexpected @ d)])"

definition main :: "env \<Rightarrow> run" where
  "main e =
     (let t0 = [Print (msg_workdir @ base_dir e), Print (replicate 40 CHR ''-'')];
          a = audio_path e;
          i = image_path e;
          m = missing a i
      in if m \<noteq> [] then
           input e (t0 @ [Print msg_missing] @ map (\<lambda>l. Print (''   - '' @ l)) m) msg_prompt
         else
           (case (a, i) of
              (Some ap, Some ip) \<Rightarrow>
                let out = Path (base_dir e) OUTPUT_FILENAME;
                    t1 = t0 @
                      [Print (msg_found_audio @ name ap),
                       Print (msg_found_image @ name ip),
                       Print (msg_create @ OUTPUT_FILENAME),
                       Print (replicate 40 CHR ''-'')]
                in input e (t1 @ try_run e (cmd ap ip out) out) msg_prompt
            | _ \<Rightarrow> \<lparr>trace = t0, result = Inl AttributeError\<rparr>))"

section \<open>Properties of the library functions\<close>

lemma fnmatch_star: "fnmatch n ''*''"
  by (induction n) simp_all

lemma fnmatch_literal:
  "p \<noteq> CHR ''*'' \<Longrightarrow> p \<noteq> CHR ''?'' \<Longrightarrow>
   fnmatch n (p # ps) = (\<exists>cs. n = p # cs \<and> fnmatch cs ps)"
  by (cases n) auto

lemma fnmatch_audio: "fnmatch n ''audio.*'' = (\<exists>r. n = ''audio.'' @ r)"
  by (auto simp: fnmatch_literal fnmatch_star)

lemma fnmatch_cover: "fnmatch n ''cover.*'' = (\<exists>r. n = ''cover.'' @ r)"
  by (auto simp: fnmatch_literal fnmatch_star)

lemma rfind_lower_bound: "- 1 \<le> rfind s c"
  by (induction s) (simp_all add: Let_def)

lemma rfind_absent: "c \<notin> set s \<Longrightarrow> rfind s c = - 1"
  by (induction s) (auto simp: Let_def)

lemma rfind_last: "c \<notin> set x \<Longrightarrow> rfind (s @ c # x) c = int (length s)"
  by (induction s) (simp_all add: Let_def rfind_absent)

lemma rfind_ge: "k < length s \<Longrightarrow> s ! k = c \<Longrightarrow> int k \<le> rfind s c"
proof (induction s arbitrary: k)
  case Nil
  then show ?case by simp
next
  case (Cons x xs)
  show ?case
  proof (cases k)
    case 0
    with Cons.prems rfind_lower_bound [of xs c] show ?thesis
      by (simp add: Let_def)
  next
    case (Suc j)
    with Cons.prems have "int j \<le> rfind xs c" by (simp add: Cons.IH)
    with Suc show ?thesis by (simp add: Let_def)
  qed
qed

lemma suffix_final:
  assumes "CHR ''.'' \<notin> set x" and "x \<noteq> []" and "s \<noteq> []"
  shows "suffix (Path d (s @ ''.'' @ x)) = ''.'' @ x"
  using assms by (simp add: suffix_def rfind_last Let_def)

lemma str_path_slash: "CHR ''/'' \<in> set (str_path p)"
  by (simp add: str_path_def) (metis last_in_set)

lemma next_or_None_Some: "next_or_None xs = Some x \<Longrightarrow> x \<in> set xs"
  by (cases xs) auto

lemma next_or_None_None: "(next_or_None xs = None) = (xs = [])"
  by (cases xs) auto

lemma next_or_None_unique:
  "x \<in> set xs \<Longrightarrow> \<forall>y\<in>set xs. y = x \<Longrightarrow> next_or_None xs = Some x"
  by (cases xs) auto

section \<open>Properties of the steps of main\<close>

lemma audio_candidates_iff:
  "p \<in> set (audio_candidates e) \<longleftrightarrow>
     parent p = base_dir e \<and> name p \<in> set (entries e) \<and>
     fnmatch (name p) ''audio.*'' \<and> lower (suffix p) \<in> AUDIO_EXTS"
  by (cases p) (auto simp: audio_candidates_def glob_def)

lemma image_candidates_iff:
  "p \<in> set (image_candidates e) \<longleftrightarrow>
     parent p = base_dir e \<and> name p \<in> set (entries e) \<and>
     fnmatch (name p) ''cover.*'' \<and> lower (suffix p) \<in> IMAGE_EXTS"
  by (cases p) (auto simp: image_candidates_def glob_def)

lemma audio_path_candidate: "audio_path e = Some p \<Longrightarrow> p \<in> set (audio_candidates e)"
  by (simp add: audio_path_def next_or_None_Some)

lemma image_path_candidate: "image_path e = Some p \<Longrightarrow> p \<in> set (image_candidates e)"
  by (simp add: image_path_def next_or_None_Some)

lemma audio_path_None: "(audio_path e = None) = (audio_candidates e = [])"
  by (simp add: audio_path_def next_or_None_None)

lemma image_path_None: "(image_path e = None) = (image_candidates e = [])"
  by (simp add: image_path_def next_or_None_None)

lemma missing_Nil: "(missing a i = []) = (a \<noteq> None \<and> i \<noteq> None)"
  by (simp add: missing_def)

lemma main_missing:
  assumes "audio_path e = None \<or> image_path e = None"
  shows "main e =
    input e
      ([Print (msg_workdir @ base_dir e), Print (replicate 40 CHR ''-''), Print msg_missing] @
       map (\<lambda>l. Print (''   - '' @ l)) (missing (audio_path e) (image_path e)))
      msg_prompt"
proof -
  from assms have "missing (audio_path e) (image_path e) \<noteq> []"
    by (auto simp: missing_Nil)
  then show ?thesis
    by (simp add: main_def Let_def)
qed

lemma main_found:
  assumes "audio_path e = Some a" and "image_path e = Some i"
  shows "main e =
    input e
      ([Print (msg_workdir @ base_dir e), Print (replicate 40 CHR ''-''),
        Print (msg_found_audio @ name a), Print (msg_found_image @ name i),
        Print (msg_create @ OUTPUT_FILENAME), Print (replicate 40 CHR ''-'')] @
       try_run e (cmd a i (Path (base_dir e) OUTPUT_FILENAME)) (Path (base_dir e) OUTPUT_FILENAME))
      msg_prompt"
proof -
  from assms have "missing (audio_path e) (image_path e) = []"
    by (simp add: missing_Nil)
  with assms show ?thesis
    by (simp add: main_def Let_def)
qed

lemma try_run_Run: "Run c' \<in> set (try_run e c out) \<longleftrightarrow> c' = c"
  by (auto simp: try_run_def split: sum.splits run_error.splits)

lemma Run_in_trace:
  "Run c \<in> set (trace (main e)) \<longleftrightarrow>
     (\<exists>a i. audio_path e = Some a \<and> image_path e = Some i \<and>
            c = cmd a i (Path (base_dir e) OUTPUT_FILENAME))"
proof (cases "audio_path e = None \<or> image_path e = None")
  case True
  then have "Run c \<notin> set (trace (main e))"
    by (auto simp: main_missing input_def)
  with True show ?thesis by auto
next
  case False
  then obtain a i where ai: "audio_path e = Some a" "image_path e = Some i"
    by auto
  then show ?thesis
    by (auto simp: main_found input_def try_run_Run)
qed

lemma result_main: "result (main e) = (case stdin e of None \<Rightarrow> Inl EOFError | Some l \<Rightarrow> Inr ())"
proof (cases "audio_path e = None \<or> image_path e = None")
  case True
  then show ?thesis by (simp add: main_missing input_def)
next
  case False
  then obtain a i where "audio_path e = Some a" "image_path e = Some i"
    by auto
  then show ?thesis by (simp add: main_found input_def)
qed

lemma last_trace_main: "last (trace (main e)) = Input msg_prompt"
proof (cases "audio_path e = None \<or> image_path e = None")
  case True
  then show ?thesis by (simp add: main_missing input_def)
next
  case False
  then obtain a i where "audio_path e = Some a" "image_path e = Some i"
    by auto
  then show ?thesis by (simp add: main_found input_def)
qed

lemma audio_path_unique:
  assumes "a \<in> set (entries e)" and "fnmatch a ''audio.*''"
    and "lower (suffix (Path (base_dir e) a)) \<in> AUDIO_EXTS"
    and "\<forall>n\<in>set (entries e).
           fnmatch n ''audio.*'' \<and> lower (suffix (Path (base_dir e) n)) \<in> AUDIO_EXTS \<longrightarrow> n = a"
  shows "audio_path e = Some (Path (base_dir e) a)"
proof -
  have "Path (base_dir e) a \<in> set (audio_candidates e)"
    using assms(1-3) by (simp add: audio_candidates_iff)
  moreover have "\<forall>p\<in>set (audio_candidates e). p = Path (base_dir e) a"
  proof
    fix p assume "p \<in> set (audio_candidates e)"
    then have "parent p = base_dir e" "name p \<in> set (entries e)"
      "fnmatch (name p) ''audio.*''" "lower (suffix p) \<in> AUDIO_EXTS"
      by (simp_all add: audio_candidates_iff)
    with assms(4) show "p = Path (base_dir e) a"
      by (cases p) auto
  qed
  ultimately show ?thesis
    unfolding audio_path_def by (rule next_or_None_unique)
qed

lemma image_path_unique:
  assumes "c \<in> set (entries e)" and "fnmatch c ''cover.*''"
    and "lower (suffix (Path (base_dir e) c)) \<in> IMAGE_EXTS"
    and "\<forall>n\<in>set (entries e).
           fnmatch n ''cover.*'' \<and> lower (suffix (Path (base_dir e) n)) \<in> IMAGE_EXTS \<longrightarrow> n = c"
  shows "image_path e = Some (Path (base_dir e) c)"
proof -
  have "Path (base_dir e) c \<in> set (image_candidates e)"
    using assms(1-3) by (simp add: image_candidates_iff)
  moreover have "\<forall>p\<in>set (image_candidates e). p = Path (base_dir e) c"
  proof
    fix p assume "p \<in> set (image_candidates e)"
    then have "parent p = base_dir e" "name p \<in> set (entries e)"
      "fnmatch (name p) ''cover.*''" "lower (suffix p) \<in> IMAGE_EXTS"
      by (simp_all add: image_candidates_iff)
    with assms(4) show "p = Path (base_dir e) c"
      by (cases p) auto
  qed
  ultimately show ?thesis
    unfolding image_path_def by (rule next_or_None_unique)
qed

lemma audio_txt_not_allowed: "lower (suffix (Path d ''audio.txt'')) \<notin> AUDIO_EXTS"
  by (simp add: suffix_def lower_def lower_char_def AUDIO_EXTS_def)

lemma replicate_40: "replicate 40 c = c # replicate 39 c"
proof -
  have "(40::nat) = Suc 39" by simp
  then show ?thesis by (simp only: replicate.simps)
qed

lemma trace_found:
  assumes "audio_path e = Some a" and "image_path e = Some i"
  shows "trace (main e) =
      [Print (msg_workdir @ base_dir e), Print (replicate 40 CHR ''-''),
       Print (msg_found_audio @ name a), Print (msg_found_image @ name i),
       Print (msg_create @ OUTPUT_FILENAME), Print (replicate 40 CHR ''-''),
       Run (cmd a i (Path (base_dir e) OUTPUT_FILENAME))] @
      (case tool e (cmd a i (Path (base_dir e) OUTPUT_FILENAME)) of
         Exit rc \<Rightarrow>
           if rc \<noteq> 0 then [Print msg_ffmpeg_error]
           else [Print ([CHR 0x0A] @ replicate 40 CHR ''=''),
                 Print (msg_success @ OUTPUT_FILENAME),
                 Print (replicate 40 CHR ''='')]
       | Fails d \<Rightarrow> [Print (msg_unexpected @ d)]) @
      [Input msg_prompt]"
  using assms
  by (simp add: main_found input_def try_run_def subprocess_run_def split: tool_outcome.splits)

lemma audio_path_parent: "audio_path e = Some p \<Longrightarrow> parent p = base_dir e"
  by (drule audio_path_candidate) (simp add: audio_candidates_iff)

lemma str_path_not_flag: "str_path p \<noteq> ''-i''"
  using str_path_slash [of p] by auto

lemma str_path_ends_with_name: "\<exists>pre. str_path p = pre @ name p"
  by (auto simp: str_path_def)

lemma audio_mp3_allowed: "lower (suffix (Path d ''audio.mp3'')) \<in> AUDIO_EXTS"
  by (simp add: suffix_def lower_def lower_char_def AUDIO_EXTS_def)

lemma cover_png_allowed: "lower (suffix (Path d ''cover.png'')) \<in> IMAGE_EXTS"
  by (simp add: suffix_def lower_def lower_char_def IMAGE_EXTS_def)

lemma only_audio_mp3_cover_png:
  assumes "set (entries e) = {''audio.mp3'', ''cover.png''}"
  shows "audio_path e = Some (Path (base_dir e) ''audio.mp3'')"
    and "image_path e = Some (Path (base_dir e) ''cover.png'')"
proof -
  show "audio_path e = Some (Path (base_dir e) ''audio.mp3'')"
    by (rule audio_path_unique) (simp_all add: assms audio_mp3_allowed)
  show "image_path e = Some (Path (base_dir e) ''cover.png'')"
    by (rule image_path_unique) (simp_all add: assms cover_png_allowed)
qed

lemma empty_not_allowed: "lower [] \<notin> AUDIO_EXTS" "lower [] \<notin> IMAGE_EXTS"
  by (simp_all add: lower_def AUDIO_EXTS_def IMAGE_EXTS_def)

lemma stem_after_prefix:
  assumes n: "name p = pre @ ''.'' @ r" and s: "suffix p \<noteq> []"
  shows "stem p = pre \<or> (\<exists>r'. stem p = pre @ ''.'' @ r')"
proof -
  let ?i = "rfind (name p) CHR ''.''"
  from s have i: "0 < ?i" "?i < int (length (name p)) - 1"
    by (auto simp: suffix_def Let_def split: if_splits)
  then have st: "stem p = take (nat ?i) (name p)"
    by (simp add: stem_def Let_def)
  from n have "length pre < length (name p)" "name p ! length pre = CHR ''.''"
    by (simp_all add: nth_append)
  then have ge: "int (length pre) \<le> ?i"
    by (rule rfind_ge)
  show ?thesis
  proof (cases "nat ?i = length pre")
    case True
    with st n show ?thesis by simp
  next
    case False
    with ge obtain j where j: "nat ?i - length pre = Suc j"
      by (cases "nat ?i - length pre") auto
    from ge have "take (nat ?i) (name p) = pre @ take (nat ?i - length pre) (CHR ''.'' # r)"
      by (simp add: n)
    with j st have "stem p = pre @ ''.'' @ take j r"
      by simp
    then show ?thesis by blast
  qed
qed

lemma audio_path_stem:
  assumes "audio_path e = Some p"
  shows "stem p = ''audio'' \<or> (\<exists>r. stem p = ''audio.'' @ r)"
proof -
  from assms have c: "p \<in> set (audio_candidates e)"
    by (rule audio_path_candidate)
  then have "fnmatch (name p) ''audio.*''"
    by (simp add: audio_candidates_iff)
  then obtain r where r: "name p = ''audio.'' @ r"
    unfolding fnmatch_audio by (elim exE)
  from c have "lower (suffix p) \<in> AUDIO_EXTS"
    by (simp add: audio_candidates_iff)
  with empty_not_allowed(1) have "suffix p \<noteq> []"
    by auto
  moreover from r have "name p = ''audio'' @ ''.'' @ r"
    by simp
  ultimately have "stem p = ''audio'' \<or> (\<exists>r'. stem p = ''audio'' @ ''.'' @ r')"
    by (intro stem_after_prefix)
  then show ?thesis
    by simp
qed

lemma image_path_stem:
  assumes "image_path e = Some q"
  shows "stem q = ''cover'' \<or> (\<exists>r. stem q = ''cover.'' @ r)"
proof -
  from assms have c: "q \<in> set (image_candidates e)"
    by (rule image_path_candidate)
  then have "fnmatch (name q) ''cover.*''"
    by (simp add: image_candidates_iff)
  then obtain r where r: "name q = ''cover.'' @ r"
    unfolding fnmatch_cover by (elim exE)
  from c have "lower (suffix q) \<in> IMAGE_EXTS"
    by (simp add: image_candidates_iff)
  with empty_not_allowed(2) have "suffix q \<noteq> []"
    by auto
  moreover from r have "name q = ''cover'' @ ''.'' @ r"
    by simp
  ultimately have "stem q = ''cover'' \<or> (\<exists>r'. stem q = ''cover'' @ ''.'' @ r')"
    by (intro stem_after_prefix)
  then show ?thesis
    by simp
qed

lemma lower_append: "lower (a @ b) = lower a @ lower b"
  by (simp add: lower_def)

lemma lower_required_stems:
  "lower ''audio'' = ''audio''" "lower ''audio.'' = ''audio.''"
  "lower ''cover'' = ''cover''" "lower ''cover.'' = ''cover.''"
  by (simp_all add: lower_def lower_char_def)

section \<open>The claims\<close>

subsection \<open>C1: a unique pair of candidates is the pair selected\<close>

text \<open>
  Claim C1. In a directory with exactly one entry named \<open>audio.*\<close> whose lower-cased final
  extension is an allowed audio extension, and exactly one entry named \<open>cover.*\<close> whose
  lower-cased final extension is an allowed image extension, the discovery steps select
  those two entries, and the command that is run is the one built from them. In every
  directory, a selected file has an extension of the respective allow-set; \<open>audio.txt\<close>
  is never selected.
\<close>

theorem C1_unique_candidates_selected:
  assumes "a \<in> set (entries e)" and "\<exists>r. a = ''audio.'' @ r"
    and "lower (suffix (Path (base_dir e) a)) \<in> AUDIO_EXTS"
    and "\<forall>n\<in>set (entries e).
           (\<exists>r. n = ''audio.'' @ r) \<and> lower (suffix (Path (base_dir e) n)) \<in> AUDIO_EXTS
           \<longrightarrow> n = a"
    and "c \<in> set (entries e)" and "\<exists>r. c = ''cover.'' @ r"
    and "lower (suffix (Path (base_dir e) c)) \<in> IMAGE_EXTS"
    and "\<forall>n\<in>set (entries e).
           (\<exists>r. n = ''cover.'' @ r) \<and> lower (suffix (Path (base_dir e) n)) \<in> IMAGE_EXTS
           \<longrightarrow> n = c"
  shows "audio_path e = Some (Path (base_dir e) a) \<and>
         image_path e = Some (Path (base_dir e) c) \<and>
         (\<forall>k. Run k \<in> set (trace (main e)) \<longleftrightarrow>
            k = cmd (Path (base_dir e) a) (Path (base_dir e) c)
                  (Path (base_dir e) OUTPUT_FILENAME)) \<and>
         (\<forall>e' p. audio_path e' = Some p \<longrightarrow> lower (suffix p) \<in> AUDIO_EXTS) \<and>
         (\<forall>e' p. image_path e' = Some p \<longrightarrow> lower (suffix p) \<in> IMAGE_EXTS) \<and>
         (\<forall>e' d. audio_path e' \<noteq> Some (Path d ''audio.txt''))"
proof -
  have "fnmatch a ''audio.*''"
    using assms(2) by (simp only: fnmatch_audio)
  moreover have "\<forall>n\<in>set (entries e).
      fnmatch n ''audio.*'' \<and> lower (suffix (Path (base_dir e) n)) \<in> AUDIO_EXTS \<longrightarrow> n = a"
    using assms(4) by (simp only: fnmatch_audio)
  ultimately have a: "audio_path e = Some (Path (base_dir e) a)"
    using assms(1,3) by (intro audio_path_unique)
  have "fnmatch c ''cover.*''"
    using assms(6) by (simp only: fnmatch_cover)
  moreover have "\<forall>n\<in>set (entries e).
      fnmatch n ''cover.*'' \<and> lower (suffix (Path (base_dir e) n)) \<in> IMAGE_EXTS \<longrightarrow> n = c"
    using assms(8) by (simp only: fnmatch_cover)
  ultimately have c: "image_path e = Some (Path (base_dir e) c)"
    using assms(5,7) by (intro image_path_unique)
  have run: "\<forall>k. Run k \<in> set (trace (main e)) \<longleftrightarrow>
            k = cmd (Path (base_dir e) a) (Path (base_dir e) c)
                  (Path (base_dir e) OUTPUT_FILENAME)"
    by (simp add: Run_in_trace a c)
  have never_a: "\<forall>e' p. audio_path e' = Some p \<longrightarrow> lower (suffix p) \<in> AUDIO_EXTS"
    by (auto dest!: audio_path_candidate simp: audio_candidates_iff)
  have never_c: "\<forall>e' p. image_path e' = Some p \<longrightarrow> lower (suffix p) \<in> IMAGE_EXTS"
    by (auto dest!: image_path_candidate simp: image_candidates_iff)
  have no_txt: "\<forall>e' d. audio_path e' \<noteq> Some (Path d ''audio.txt'')"
  proof (intro allI notI)
    fix e' d assume "audio_path e' = Some (Path d ''audio.txt'')"
    with never_a have "lower (suffix (Path d ''audio.txt'')) \<in> AUDIO_EXTS" by simp
    with audio_txt_not_allowed show False by simp
  qed
  from a c run never_a never_c no_txt show ?thesis by (intro conjI)
qed

theorem C1_unique_candidates_selected_witness:
  "audio_path \<lparr>base_dir = ''/home/u/album'',
      entries = [''audio.txt'', ''notes.md'', ''audio.MP3'', ''cover.png'', ''cover.webp''],
      tool = (\<lambda>k. Exit 0), stdin = Some []\<rparr>
     = Some (Path ''/home/u/album'' ''audio.MP3'') \<and>
   image_path \<lparr>base_dir = ''/home/u/album'',
      entries = [''audio.txt'', ''notes.md'', ''audio.MP3'', ''cover.png'', ''cover.webp''],
      tool = (\<lambda>k. Exit 0), stdin = Some []\<rparr>
     = Some (Path ''/home/u/album'' ''cover.png'')"
proof -
  let ?d = "''/home/u/album''"
  let ?e = "\<lparr>base_dir = ?d,
      entries = [''audio.txt'', ''notes.md'', ''audio.MP3'', ''cover.png'', ''cover.webp''],
      tool = (\<lambda>k. Exit 0), stdin = Some []\<rparr>"
  have mp3: "lower (suffix (Path ?d ''audio.MP3'')) \<in> AUDIO_EXTS"
    by code_simp
  have no_audio_txt: "lower (suffix (Path ?d ''audio.txt'')) \<notin> AUDIO_EXTS"
    by code_simp
  have png: "lower (suffix (Path ?d ''cover.png'')) \<in> IMAGE_EXTS"
    by code_simp
  have webp: "lower (suffix (Path ?d ''cover.webp'')) \<notin> IMAGE_EXTS"
    by code_simp
  have a1: "''audio.MP3'' \<in> set (entries ?e)" by simp
  have a2: "\<exists>r. ''audio.MP3'' = ''audio.'' @ r" by simp
  have a3: "lower (suffix (Path (base_dir ?e) ''audio.MP3'')) \<in> AUDIO_EXTS"
    using mp3 by simp
  have a4: "\<forall>n\<in>set (entries ?e).
      (\<exists>r. n = ''audio.'' @ r) \<and> lower (suffix (Path (base_dir ?e) n)) \<in> AUDIO_EXTS
      \<longrightarrow> n = ''audio.MP3''"
    using no_audio_txt by simp
  have c1: "''cover.png'' \<in> set (entries ?e)" by simp
  have c2: "\<exists>r. ''cover.png'' = ''cover.'' @ r" by simp
  have c3: "lower (suffix (Path (base_dir ?e) ''cover.png'')) \<in> IMAGE_EXTS"
    using png by simp
  have c4: "\<forall>n\<in>set (entries ?e).
      (\<exists>r. n = ''cover.'' @ r) \<and> lower (suffix (Path (base_dir ?e) n)) \<in> IMAGE_EXTS
      \<longrightarrow> n = ''cover.png''"
    using webp by simp
  from C1_unique_candidates_selected [OF a1 a2 a3 a4 c1 c2 c3 c4]
  have "audio_path ?e = Some (Path (base_dir ?e) ''audio.MP3'')"
    and "image_path ?e = Some (Path (base_dir ?e) ''cover.png'')"
    by blast+
  then show ?thesis by simp
qed

subsection \<open>C2: missing inputs are reported and nothing is encoded\<close>

text \<open>
  Claim C2. When the audio generator yields nothing (whatever the image state), or the
  image generator yields nothing, the run never starts the external tool: it prints the
  heading of the diagnostic, then one line for every missing category and for no other
  (the audio line exactly when audio is missing, the image line exactly when the image is
  missing, hence both when both are), and ends with the acknowledgment read. The whole
  trace of such a run is written out.
\<close>

theorem C2_missing_input_reported:
  assumes "audio_candidates e = [] \<or> image_candidates e = []"
  shows "(\<forall>k. Run k \<notin> set (trace (main e))) \<and>
         Print msg_missing \<in> set (trace (main e)) \<and>
         (Print (''   - '' @ label_audio) \<in> set (trace (main e)) \<longleftrightarrow>
            audio_candidates e = []) \<and>
         (Print (''   - '' @ label_image) \<in> set (trace (main e)) \<longleftrightarrow>
            image_candidates e = []) \<and>
         (\<forall>l. Print (''   - '' @ l) \<in> set (trace (main e)) \<longrightarrow>
            l = label_audio \<or> l = label_image) \<and>
         trace (main e) =
           [Print (msg_workdir @ base_dir e), Print (replicate 40 CHR ''-''),
            Print msg_missing] @
           (if audio_candidates e = [] then [Print (''   - '' @ label_audio)] else []) @
           (if image_candidates e = [] then [Print (''   - '' @ label_image)] else []) @
           [Input msg_prompt] \<and>
         last (trace (main e)) = Input msg_prompt"
proof -
  from assms have none: "audio_path e = None \<or> image_path e = None"
    by (simp add: audio_path_None image_path_None)
  then have no_run: "\<forall>k. Run k \<notin> set (trace (main e))"
    by (auto simp: Run_in_trace)
  have tr: "trace (main e) =
      [Print (msg_workdir @ base_dir e), Print (replicate 40 CHR ''-''), Print msg_missing] @
      (if audio_candidates e = [] then [Print (''   - '' @ label_audio)] else []) @
      (if image_candidates e = [] then [Print (''   - '' @ label_image)] else []) @
      [Input msg_prompt]"
    using none
    by (simp add: main_missing input_def missing_def audio_path_None image_path_None)
  have heading: "Print msg_missing \<in> set (trace (main e))"
    by (simp add: tr)
  have differ: "label_audio \<noteq> label_image"
    by (simp add: label_audio_def label_image_def)
  have audio: "Print (''   - '' @ label_audio) \<in> set (trace (main e)) \<longleftrightarrow>
      audio_candidates e = []"
    using differ by (simp add: tr msg_workdir_def replicate_40 msg_missing_def)
  have image: "Print (''   - '' @ label_image) \<in> set (trace (main e)) \<longleftrightarrow>
      image_candidates e = []"
    using differ by (auto simp: tr msg_workdir_def replicate_40 msg_missing_def)
  have only: "\<forall>l. Print (''   - '' @ l) \<in> set (trace (main e)) \<longrightarrow>
      l = label_audio \<or> l = label_image"
    by (auto simp: tr msg_workdir_def replicate_40 msg_missing_def split: if_splits)
  from no_run heading audio image only tr last_trace_main [of e] show ?thesis
    by (intro conjI)
qed

theorem C2_missing_input_reported_witness:
  "Print (''   - '' @ label_audio)
     \<in> set (trace (main \<lparr>base_dir = ''/home/u/album'', entries = [''audio.xyz'', ''cover.jpg''],
                           tool = (\<lambda>k. Exit 0), stdin = Some []\<rparr>)) \<and>
   Print (''   - '' @ label_image)
     \<notin> set (trace (main \<lparr>base_dir = ''/home/u/album'', entries = [''audio.xyz'', ''cover.jpg''],
                           tool = (\<lambda>k. Exit 0), stdin = Some []\<rparr>)) \<and>
   Run (cmd (Path ''/home/u/album'' ''audio.xyz'') (Path ''/home/u/album'' ''cover.jpg'')
          (Path ''/home/u/album'' ''movie.mp4''))
     \<notin> set (trace (main \<lparr>base_dir = ''/home/u/album'', entries = [''audio.xyz'', ''cover.jpg''],
                           tool = (\<lambda>k. Exit 0), stdin = Some []\<rparr>))"
proof -
  let ?e = "\<lparr>base_dir = ''/home/u/album'', entries = [''audio.xyz'', ''cover.jpg''],
             tool = (\<lambda>k. Exit 0), stdin = Some []\<rparr>"
  have "lower (suffix (Path ''/home/u/album'' ''audio.xyz'')) \<notin> AUDIO_EXTS"
    by code_simp
  then have a: "audio_candidates ?e = []"
    by (simp add: audio_candidates_def glob_def)
  have "lower (suffix (Path ''/home/u/album'' ''cover.jpg'')) \<in> IMAGE_EXTS"
    by code_simp
  then have i: "image_candidates ?e \<noteq> []"
    by (simp add: image_candidates_def glob_def)
  from a have h: "audio_candidates ?e = [] \<or> image_candidates ?e = []"
    by (rule disjI1)
  note c2 = C2_missing_input_reported [OF h]
  from c2 have no_run: "\<forall>k. Run k \<notin> set (trace (main ?e))"
    by (rule conjunct1)
  from c2 have audio: "Print (''   - '' @ label_audio) \<in> set (trace (main ?e)) \<longleftrightarrow>
      audio_candidates ?e = []"
    by (rule conjunct2 [THEN conjunct2, THEN conjunct1])
  from c2 have image: "Print (''   - '' @ label_image) \<in> set (trace (main ?e)) \<longleftrightarrow>
      image_candidates ?e = []"
    by (rule conjunct2 [THEN conjunct2, THEN conjunct2, THEN conjunct1])
  from audio a have "Print (''   - '' @ label_audio) \<in> set (trace (main ?e))"
    by (rule iffD2)
  moreover from image i have "Print (''   - '' @ label_image) \<notin> set (trace (main ?e))"
    by (simp only: not_False_eq_True)
  moreover from no_run have "Run (cmd (Path ''/home/u/album'' ''audio.xyz'')
      (Path ''/home/u/album'' ''cover.jpg'') (Path ''/home/u/album'' ''movie.mp4''))
      \<notin> set (trace (main ?e))"
    by (rule spec)
  ultimately show ?thesis
    by (intro conjI)
qed

subsection \<open>C3: the report after the tool has exited\<close>

text \<open>
  Claim C3. In every run that starts the external tool: when the tool exits with status
  zero, the success banner with the name of the output file is printed, and none of the
  failure diagnostics is; when it exits with a non-zero status, the tool-failure
  diagnostic is printed and no success banner is.
\<close>

theorem C3_exit_status_report:
  assumes "Run k \<in> set (trace (main e))"
  shows "(tool e k = Exit 0 \<longrightarrow>
            Print (msg_success @ ''movie.mp4'') \<in> set (trace (main e)) \<and>
            Print msg_ffmpeg_error \<notin> set (trace (main e)) \<and>
            Print msg_missing \<notin> set (trace (main e)) \<and>
            (\<forall>d. Print (msg_unexpected @ d) \<notin> set (trace (main e)))) \<and>
         (\<forall>rc. rc \<noteq> 0 \<and> tool e k = Exit rc \<longrightarrow>
            Print msg_ffmpeg_error \<in> set (trace (main e)) \<and>
            (\<forall>s. Print (msg_success @ s) \<notin> set (trace (main e))))"
proof -
  from assms obtain a i where ai: "audio_path e = Some a" "image_path e = Some i"
    and k: "k = cmd a i (Path (base_dir e) OUTPUT_FILENAME)"
    by (auto simp: Run_in_trace)
  note tr = trace_found [OF ai, folded k]
  have ok: "tool e k = Exit 0 \<longrightarrow>
            Print (msg_success @ ''movie.mp4'') \<in> set (trace (main e)) \<and>
            Print msg_ffmpeg_error \<notin> set (trace (main e)) \<and>
            Print msg_missing \<notin> set (trace (main e)) \<and>
            (\<forall>d. Print (msg_unexpected @ d) \<notin> set (trace (main e)))"
    by (simp add: tr replicate_40 OUTPUT_FILENAME_def msg_success_def msg_ffmpeg_error_def
        msg_missing_def msg_unexpected_def msg_workdir_def msg_found_audio_def
        msg_found_image_def msg_create_def)
  have failed: "\<forall>rc. rc \<noteq> 0 \<and> tool e k = Exit rc \<longrightarrow>
            Print msg_ffmpeg_error \<in> set (trace (main e)) \<and>
            (\<forall>s. Print (msg_success @ s) \<notin> set (trace (main e)))"
    by (auto simp: tr replicate_40 msg_success_def msg_ffmpeg_error_def
        msg_workdir_def msg_found_audio_def msg_found_image_def msg_create_def)
  from ok failed show ?thesis ..
qed

theorem C3_exit_status_report_witness:
  "Print (msg_success @ ''movie.mp4'')
     \<in> set (trace (main \<lparr>base_dir = ''/home/u/album'', entries = [''audio.mp3'', ''cover.png''],
                           tool = (\<lambda>k. Exit 0), stdin = Some []\<rparr>)) \<and>
   Print msg_ffmpeg_error
     \<in> set (trace (main \<lparr>base_dir = ''/home/u/album'', entries = [''audio.mp3'', ''cover.png''],
                           tool = (\<lambda>k. Exit 1), stdin = Some []\<rparr>))"
proof -
  let ?ok = "\<lparr>base_dir = ''/home/u/album'', entries = [''audio.mp3'', ''cover.png''],
             tool = (\<lambda>k. Exit 0), stdin = Some []\<rparr>"
  let ?bad = "\<lparr>base_dir = ''/home/u/album'', entries = [''audio.mp3'', ''cover.png''],
             tool = (\<lambda>k. Exit 1), stdin = Some []\<rparr>"
  let ?k = "cmd (Path ''/home/u/album'' ''audio.mp3'') (Path ''/home/u/album'' ''cover.png'')
              (Path ''/home/u/album'' OUTPUT_FILENAME)"
  have "set (entries ?ok) = {''audio.mp3'', ''cover.png''}" by simp
  then have "audio_path ?ok = Some (Path ''/home/u/album'' ''audio.mp3'')"
    and "image_path ?ok = Some (Path ''/home/u/album'' ''cover.png'')"
    using only_audio_mp3_cover_png [of ?ok] by simp_all
  then have run_ok: "Run ?k \<in> set (trace (main ?ok))"
    by (simp add: Run_in_trace)
  have "set (entries ?bad) = {''audio.mp3'', ''cover.png''}" by simp
  then have "audio_path ?bad = Some (Path ''/home/u/album'' ''audio.mp3'')"
    and "image_path ?bad = Some (Path ''/home/u/album'' ''cover.png'')"
    using only_audio_mp3_cover_png [of ?bad] by simp_all
  then have run_bad: "Run ?k \<in> set (trace (main ?bad))"
    by (simp add: Run_in_trace)
  have "tool ?ok ?k = Exit 0" by simp
  with C3_exit_status_report [OF run_ok]
  have ok: "Print (msg_success @ ''movie.mp4'') \<in> set (trace (main ?ok))"
    by blast
  have "(1::int) \<noteq> 0 \<and> tool ?bad ?k = Exit 1" by simp
  with C3_exit_status_report [OF run_bad]
  have bad: "Print msg_ffmpeg_error \<in> set (trace (main ?bad))"
    by blast
  from ok bad show ?thesis ..
qed

subsection \<open>C4: the fixed parts of the command\<close>

text \<open>
  Claim C4. For every pair of selected audio and image paths, the command that is run
  contains the pad filter expression, \<open>-shortest\<close> and \<open>-y\<close> verbatim, whatever the
  extensions; and the whole argument list is a function of the two paths and the output
  name alone: it is the list written out below, and any other run that selects the same
  two paths (with any tool behaviour, standard input and other directory entries) runs
  the same command.
\<close>

theorem C4_command_fixed_shape:
  assumes "audio_path e = Some a" and "image_path e = Some i"
  shows "\<exists>k. (\<forall>k'. Run k' \<in> set (trace (main e)) \<longleftrightarrow> k' = k) \<and>
           ''pad=ceil(iw/2)*2:ceil(ih/2)*2'' \<in> set k \<and>
           ''-shortest'' \<in> set k \<and>
           ''-y'' \<in> set k \<and>
           k = [''ffmpeg'', ''-y'', ''-loop'', ''1'', ''-i'', str_path i, ''-i'', str_path a,
                ''-c:v'', ''libx264'', ''-tune'', ''stillimage'', ''-c:a'', ''aac'',
                ''-b:a'', ''192k'', ''-pix_fmt'', ''yuv420p'',
                ''-vf'', ''pad=ceil(iw/2)*2:ceil(ih/2)*2'', ''-shortest'',
                str_path (Path (parent a) ''movie.mp4'')] \<and>
           (\<forall>e' k'. audio_path e' = Some a \<and> image_path e' = Some i \<and>
                     Run k' \<in> set (trace (main e')) \<longrightarrow> k' = k)"
proof -
  let ?k = "cmd a i (Path (parent a) OUTPUT_FILENAME)"
  have run: "\<forall>k'. Run k' \<in> set (trace (main e)) \<longleftrightarrow> k' = ?k"
    using assms by (simp add: Run_in_trace audio_path_parent)
  have others: "\<forall>e' k'. audio_path e' = Some a \<and> image_path e' = Some i \<and>
      Run k' \<in> set (trace (main e')) \<longrightarrow> k' = ?k"
    by (auto simp: Run_in_trace audio_path_parent)
  have parts: "''pad=ceil(iw/2)*2:ceil(ih/2)*2'' \<in> set ?k" "''-shortest'' \<in> set ?k"
    "''-y'' \<in> set ?k"
    by (simp_all add: cmd_def)
  have shape: "?k =
      [''ffmpeg'', ''-y'', ''-loop'', ''1'', ''-i'', str_path i, ''-i'', str_path a,
       ''-c:v'', ''libx264'', ''-tune'', ''stillimage'', ''-c:a'', ''aac'',
       ''-b:a'', ''192k'', ''-pix_fmt'', ''yuv420p'',
       ''-vf'', ''pad=ceil(iw/2)*2:ceil(ih/2)*2'', ''-shortest'',
       str_path (Path (parent a) ''movie.mp4'')]"
    by (simp add: cmd_def OUTPUT_FILENAME_def)
  from run parts shape others show ?thesis
    by (intro exI [of _ ?k] conjI)
qed

theorem C4_command_fixed_shape_witness:
  "Run [''ffmpeg'', ''-y'', ''-loop'', ''1'',
        ''-i'', ''/home/u/album/cover.png'', ''-i'', ''/home/u/album/audio.mp3'',
        ''-c:v'', ''libx264'', ''-tune'', ''stillimage'', ''-c:a'', ''aac'',
        ''-b:a'', ''192k'', ''-pix_fmt'', ''yuv420p'',
        ''-vf'', ''pad=ceil(iw/2)*2:ceil(ih/2)*2'', ''-shortest'',
        ''/home/u/album/movie.mp4'']
     \<in> set (trace (main \<lparr>base_dir = ''/home/u/album'', entries = [''audio.mp3'', ''cover.png''],
                           tool = (\<lambda>k. Exit 0), stdin = Some []\<rparr>))"
proof -
  let ?e = "\<lparr>base_dir = ''/home/u/album'', entries = [''audio.mp3'', ''cover.png''],
             tool = (\<lambda>k. Exit 0), stdin = Some []\<rparr>"
  have "set (entries ?e) = {''audio.mp3'', ''cover.png''}" by simp
  then have a: "audio_path ?e = Some (Path ''/home/u/album'' ''audio.mp3'')"
    and i: "image_path ?e = Some (Path ''/home/u/album'' ''cover.png'')"
    using only_audio_mp3_cover_png [of ?e] by simp_all
  from C4_command_fixed_shape [OF a i] show ?thesis
    by (auto simp: str_path_def)
qed

subsection \<open>C5: the order of the inputs and the output\<close>

text \<open>
  Claim C5. In every command that is run, the first \<open>-i\<close> is followed by the image path
  and the second \<open>-i\<close> by the audio path (there is no third), and the last argument is
  the output path, which ends in \<open>movie.mp4\<close>. In particular, in a directory that
  contains only \<open>audio.mp3\<close> and \<open>cover.png\<close> the command is run, with
  \<open>-i\<close>, the path of \<open>cover.png\<close>, \<open>-i\<close>, the path of \<open>audio.mp3\<close> in this order.
\<close>

theorem C5_inputs_order_and_output:
  "(\<forall>k. Run k \<in> set (trace (main e)) \<longrightarrow>
      (\<exists>a i rest. audio_path e = Some a \<and> image_path e = Some i \<and>
         k = [''ffmpeg'', ''-y'', ''-loop'', ''1'', ''-i'', str_path i, ''-i'', str_path a] @ rest \<and>
         ''-i'' \<notin> set rest \<and>
         last k = str_path (Path (base_dir e) ''movie.mp4'') \<and>
         (\<exists>pre. last k = pre @ ''movie.mp4''))) \<and>
   (set (entries e) = {''audio.mp3'', ''cover.png''} \<longrightarrow>
      (\<exists>k rest. Run k \<in> set (trace (main e)) \<and>
         k = [''ffmpeg'', ''-y'', ''-loop'', ''1'',
              ''-i'', str_path (Path (base_dir e) ''cover.png''),
              ''-i'', str_path (Path (base_dir e) ''audio.mp3'')] @ rest \<and>
         (\<exists>pre. last k = pre @ ''movie.mp4'')))"
proof -
  let ?out = "Path (base_dir e) OUTPUT_FILENAME"
  let ?rest = "[''-c:v'', ''libx264'', ''-tune'', ''stillimage'', ''-c:a'', ''aac'',
                ''-b:a'', ''192k'', ''-pix_fmt'', ''yuv420p'',
                ''-vf'', ''pad=ceil(iw/2)*2:ceil(ih/2)*2'', ''-shortest'', str_path ?out]"
  have shape: "cmd a i ?out =
      [''ffmpeg'', ''-y'', ''-loop'', ''1'', ''-i'', str_path i, ''-i'', str_path a] @ ?rest"
    for a i
    by (simp add: cmd_def)
  have no_flag: "''-i'' \<notin> set ?rest"
    using str_path_not_flag [of ?out] by auto
  have last_arg: "last (cmd a i ?out) = str_path (Path (base_dir e) ''movie.mp4'')" for a i
    by (simp add: cmd_def OUTPUT_FILENAME_def)
  have ends: "\<exists>pre. last (cmd a i ?out) = pre @ ''movie.mp4''" for a i
    using str_path_ends_with_name [of "Path (base_dir e) ''movie.mp4''"]
    by (simp add: last_arg)
  have general: "\<forall>k. Run k \<in> set (trace (main e)) \<longrightarrow>
      (\<exists>a i rest. audio_path e = Some a \<and> image_path e = Some i \<and>
         k = [''ffmpeg'', ''-y'', ''-loop'', ''1'', ''-i'', str_path i, ''-i'', str_path a] @ rest \<and>
         ''-i'' \<notin> set rest \<and>
         last k = str_path (Path (base_dir e) ''movie.mp4'') \<and>
         (\<exists>pre. last k = pre @ ''movie.mp4''))"
  proof (intro allI impI)
    fix k assume "Run k \<in> set (trace (main e))"
    then obtain a i where ai: "audio_path e = Some a" "image_path e = Some i"
      and k: "k = cmd a i ?out"
      by (auto simp: Run_in_trace)
    from ai shape [of a i] no_flag last_arg [of a i] ends [of a i]
    show "\<exists>a i rest. audio_path e = Some a \<and> image_path e = Some i \<and>
         k = [''ffmpeg'', ''-y'', ''-loop'', ''1'', ''-i'', str_path i, ''-i'', str_path a] @ rest \<and>
         ''-i'' \<notin> set rest \<and>
         last k = str_path (Path (base_dir e) ''movie.mp4'') \<and>
         (\<exists>pre. last k = pre @ ''movie.mp4'')"
      unfolding k by blast
  qed
  have scenario: "set (entries e) = {''audio.mp3'', ''cover.png''} \<longrightarrow>
      (\<exists>k rest. Run k \<in> set (trace (main e)) \<and>
         k = [''ffmpeg'', ''-y'', ''-loop'', ''1'',
              ''-i'', str_path (Path (base_dir e) ''cover.png''),
              ''-i'', str_path (Path (base_dir e) ''audio.mp3'')] @ rest \<and>
         (\<exists>pre. last k = pre @ ''movie.mp4''))"
  proof
    assume only: "set (entries e) = {''audio.mp3'', ''cover.png''}"
    let ?a = "Path (base_dir e) ''audio.mp3''" and ?i = "Path (base_dir e) ''cover.png''"
    from only have ai: "audio_path e = Some ?a" "image_path e = Some ?i"
      by (rule only_audio_mp3_cover_png)+
    then have "Run (cmd ?a ?i ?out) \<in> set (trace (main e))"
      by (simp add: Run_in_trace)
    with shape [of ?a ?i] ends [of ?a ?i]
    show "\<exists>k rest. Run k \<in> set (trace (main e)) \<and>
         k = [''ffmpeg'', ''-y'', ''-loop'', ''1'',
              ''-i'', str_path (Path (base_dir e) ''cover.png''),
              ''-i'', str_path (Path (base_dir e) ''audio.mp3'')] @ rest \<and>
         (\<exists>pre. last k = pre @ ''movie.mp4'')"
      by blast
  qed
  from general scenario show ?thesis ..
qed

theorem C5_inputs_order_and_output_witness:
  "\<exists>rest. Run ([''ffmpeg'', ''-y'', ''-loop'', ''1'',
                ''-i'', ''/home/u/album/cover.png'', ''-i'', ''/home/u/album/audio.mp3''] @ rest)
     \<in> set (trace (main \<lparr>base_dir = ''/home/u/album'', entries = [''audio.mp3'', ''cover.png''],
                           tool = (\<lambda>k. Exit 0), stdin = Some []\<rparr>))"
proof -
  let ?e = "\<lparr>base_dir = ''/home/u/album'', entries = [''audio.mp3'', ''cover.png''],
             tool = (\<lambda>k. Exit 0), stdin = Some []\<rparr>"
  have only: "set (entries ?e) = {''audio.mp3'', ''cover.png''}"
    by simp
  note scenario = C5_inputs_order_and_output [of ?e, THEN conjunct2, THEN mp, OF only]
  then obtain k where "\<exists>rest. Run k \<in> set (trace (main ?e)) \<and>
      k = [''ffmpeg'', ''-y'', ''-loop'', ''1'',
           ''-i'', str_path (Path (base_dir ?e) ''cover.png''),
           ''-i'', str_path (Path (base_dir ?e) ''audio.mp3'')] @ rest \<and>
      (\<exists>pre. last k = pre @ ''movie.mp4'')" ..
  then obtain rest where both: "Run k \<in> set (trace (main ?e)) \<and>
      k = [''ffmpeg'', ''-y'', ''-loop'', ''1'',
           ''-i'', str_path (Path (base_dir ?e) ''cover.png''),
           ''-i'', str_path (Path (base_dir ?e) ''audio.mp3'')] @ rest \<and>
      (\<exists>pre. last k = pre @ ''movie.mp4'')" ..
  from both have run: "Run k \<in> set (trace (main ?e))"
    by (rule conjunct1)
  from both have k: "k = [''ffmpeg'', ''-y'', ''-loop'', ''1'',
           ''-i'', str_path (Path (base_dir ?e) ''cover.png''),
           ''-i'', str_path (Path (base_dir ?e) ''audio.mp3'')] @ rest"
    by (rule conjunct2 [THEN conjunct1])
  have "Run ([''ffmpeg'', ''-y'', ''-loop'', ''1'',
                ''-i'', ''/home/u/album/cover.png'', ''-i'', ''/home/u/album/audio.mp3''] @ rest)
     \<in> set (trace (main ?e))"
    using run by (simp add: k str_path_def)
  then show ?thesis by - (rule exI)
qed

subsection \<open>C6: the stem of a selected file\<close>

text \<open>
  Claim C6 says that the stem of the selected audio file is \<open>audio\<close> up to letter case
  (and that of the selected image \<open>cover\<close>). The pattern \<open>audio.*\<close> only fixes the name up
  to its first dot, and the stem is the name up to its last dot: \<open>audio.x.mp3\<close> is
  selected and its stem is \<open>audio.x\<close>.
\<close>

theorem C6_stem_counterexample:
  "audio_path \<lparr>base_dir = ''/home/u/album'', entries = [''audio.x.mp3'', ''cover.png''],
               tool = (\<lambda>k. Exit 0), stdin = Some []\<rparr>
     = Some (Path ''/home/u/album'' ''audio.x.mp3'') \<and>
   lower (stem (Path ''/home/u/album'' ''audio.x.mp3'')) \<noteq> ''audio''"
  by (simp add: audio_path_def audio_candidates_def glob_def suffix_def stem_def
      lower_def lower_char_def AUDIO_EXTS_def)

text \<open>
  Claim C6 as amended. Under case-insensitive comparison, the stem of every file selected
  as the audio candidate equals \<open>audio\<close> or begins with \<open>audio.\<close>, and symmetrically the
  stem of every selected image candidate equals \<open>cover\<close> or begins with \<open>cover.\<close>: no
  file is selected whose stem, up to its first dot, differs from the required stem other
  than by letter case.
\<close>

theorem C6_selected_stem_up_to_case:
  "(audio_path e = Some p \<longrightarrow>
      lower (stem p) = ''audio'' \<or> (\<exists>r. lower (stem p) = ''audio.'' @ r)) \<and>
   (image_path e = Some q \<longrightarrow>
      lower (stem q) = ''cover'' \<or> (\<exists>r. lower (stem q) = ''cover.'' @ r))"
proof -
  have audio: "audio_path e = Some p \<longrightarrow>
      lower (stem p) = ''audio'' \<or> (\<exists>r. lower (stem p) = ''audio.'' @ r)"
  proof
    assume "audio_path e = Some p"
    then have "stem p = ''audio'' \<or> (\<exists>r. stem p = ''audio.'' @ r)"
      by (rule audio_path_stem)
    then show "lower (stem p) = ''audio'' \<or> (\<exists>r. lower (stem p) = ''audio.'' @ r)"
    proof
      assume "stem p = ''audio''"
      then have "lower (stem p) = ''audio''"
        by (simp only: lower_required_stems)
      then show ?thesis
        by (rule disjI1)
    next
      assume "\<exists>r. stem p = ''audio.'' @ r"
      then obtain r where "stem p = ''audio.'' @ r"
        by (elim exE)
      then have "lower (stem p) = ''audio.'' @ lower r"
        by (simp only: lower_append lower_required_stems)
      then have "\<exists>r. lower (stem p) = ''audio.'' @ r"
        by - (rule exI)
      then show ?thesis
        by (rule disjI2)
    qed
  qed
  have image: "image_path e = Some q \<longrightarrow>
      lower (stem q) = ''cover'' \<or> (\<exists>r. lower (stem q) = ''cover.'' @ r)"
  proof
    assume "image_path e = Some q"
    then have "stem q = ''cover'' \<or> (\<exists>r. stem q = ''cover.'' @ r)"
      by (rule image_path_stem)
    then show "lower (stem q) = ''cover'' \<or> (\<exists>r. lower (stem q) = ''cover.'' @ r)"
    proof
      assume "stem q = ''cover''"
      then have "lower (stem q) = ''cover''"
        by (simp only: lower_required_stems)
      then show ?thesis
        by (rule disjI1)
    next
      assume "\<exists>r. stem q = ''cover.'' @ r"
      then obtain r where "stem q = ''cover.'' @ r"
        by (elim exE)
      then have "lower (stem q) = ''cover.'' @ lower r"
        by (simp only: lower_append lower_required_stems)
      then have "\<exists>r. lower (stem q) = ''cover.'' @ r"
        by - (rule exI)
      then show ?thesis
        by (rule disjI2)
    qed
  qed
  from audio image show ?thesis
    by (rule conjI)
qed

theorem C6_selected_stem_up_to_case_witness:
  "lower (stem (Path ''/home/u/album'' ''audio.x.mp3'')) = ''audio'' \<or>
   (\<exists>r. lower (stem (Path ''/home/u/album'' ''audio.x.mp3'')) = ''audio.'' @ r)"
proof -
  let ?e = "\<lparr>base_dir = ''/home/u/album'', entries = [''audio.x.mp3'', ''cover.png''],
             tool = (\<lambda>k. Exit 0), stdin = Some []\<rparr>"
  let ?p = "Path ''/home/u/album'' ''audio.x.mp3''"
  have "lower (suffix ?p) \<in> AUDIO_EXTS"
    by (simp add: suffix_def lower_def lower_char_def AUDIO_EXTS_def)
  then have a: "audio_path ?e = Some ?p"
    by (simp add: audio_path_def audio_candidates_def glob_def)
  from C6_selected_stem_up_to_case [of ?e ?p, THEN conjunct1, THEN mp, OF a]
  show ?thesis .
qed

subsection \<open>C7: a fault of the invocation other than a failing exit status\<close>

text \<open>
  Claim C7. When starting the command fails in another way than by a non-zero exit status
  (the binary is not found, say), the run prints, right after the attempt, the generic
  diagnostic followed by the description of the fault, and then performs the
  acknowledgment read as its last action, as every run that starts the tool does. The
  fault does not leave \<open>main\<close>: the run returns normally when the read obtains a line
  (the only exception that can leave it is the \<open>EOFError\<close> of that read).
\<close>

theorem C7_unexpected_fault_report:
  assumes "Run k \<in> set (trace (main e))"
  shows "(\<forall>d. tool e k = Fails d \<longrightarrow>
            (\<exists>t. trace (main e) = t @ [Run k, Print (msg_unexpected @ d), Input msg_prompt])) \<and>
         last (trace (main e)) = Input msg_prompt \<and>
         result (main e) = (case stdin e of None \<Rightarrow> Inl EOFError | Some l \<Rightarrow> Inr ())"
proof -
  from assms obtain a i where ai: "audio_path e = Some a" "image_path e = Some i"
    and k: "k = cmd a i (Path (base_dir e) OUTPUT_FILENAME)"
    by (auto simp: Run_in_trace)
  note tr = trace_found [OF ai, folded k]
  have fault: "\<forall>d. tool e k = Fails d \<longrightarrow>
      (\<exists>t. trace (main e) = t @ [Run k, Print (msg_unexpected @ d), Input msg_prompt])"
    by (simp add: tr)
  from fault last_trace_main [of e] result_main [of e] show ?thesis
    by (intro conjI)
qed

theorem C7_unexpected_fault_report_witness:
  "(\<exists>t. trace (main \<lparr>base_dir = ''/home/u/album'', entries = [''audio.mp3'', ''cover.png''],
                      tool = (\<lambda>k. Fails ''[Errno 2] No such file or directory''),
                      stdin = Some []\<rparr>) =
      t @ [Run (cmd (Path ''/home/u/album'' ''audio.mp3'') (Path ''/home/u/album'' ''cover.png'')
                  (Path ''/home/u/album'' OUTPUT_FILENAME)),
           Print (msg_unexpected @ ''[Errno 2] No such file or directory''),
           Input msg_prompt]) \<and>
   result (main \<lparr>base_dir = ''/home/u/album'', entries = [''audio.mp3'', ''cover.png''],
                 tool = (\<lambda>k. Fails ''[Errno 2] No such file or directory''),
                 stdin = Some []\<rparr>) = Inr ()"
proof -
  let ?e = "\<lparr>base_dir = ''/home/u/album'', entries = [''audio.mp3'', ''cover.png''],
             tool = (\<lambda>k. Fails ''[Errno 2] No such file or directory''), stdin = Some []\<rparr>"
  let ?k = "cmd (Path ''/home/u/album'' ''audio.mp3'') (Path ''/home/u/album'' ''cover.png'')
              (Path ''/home/u/album'' OUTPUT_FILENAME)"
  have "set (entries ?e) = {''audio.mp3'', ''cover.png''}" by simp
  then have "audio_path ?e = Some (Path ''/home/u/album'' ''audio.mp3'')"
    and "image_path ?e = Some (Path ''/home/u/album'' ''cover.png'')"
    using only_audio_mp3_cover_png [of ?e] by simp_all
  then have run: "Run ?k \<in> set (trace (main ?e))"
    by (simp add: Run_in_trace)
  have "tool ?e ?k = Fails ''[Errno 2] No such file or directory''" by simp
  with C7_unexpected_fault_report [OF run] show ?thesis
    by simp
qed

subsection \<open>C8: the exit status\<close>

text \<open>
  Claim C8 says that every run ends normally, with exit status 0. Every path of \<open>main\<close>
  ends in \<open>input\<close>, outside any \<open>try\<close>: when standard input is at end of file, \<open>input\<close>
  raises \<open>EOFError\<close>, which leaves \<open>main\<close>, and the status is 1, here after a successful
  conversion.
\<close>

theorem C8_exit_status_counterexample:
  "exit_status (main \<lparr>base_dir = ''/home/u/album'', entries = [''audio.mp3'', ''cover.png''],
                      tool = (\<lambda>k. Exit 0), stdin = None\<rparr>) = 1 \<and>
   result (main \<lparr>base_dir = ''/home/u/album'', entries = [''audio.mp3'', ''cover.png''],
                 tool = (\<lambda>k. Exit 0), stdin = None\<rparr>) = Inl EOFError"
  by (simp add: exit_status_def result_main)

text \<open>
  Claim C8 as amended. The exit status does not depend on the outcome (missing input,
  tool success, tool failure, unexpected fault): on every run in which the acknowledgment
  read obtains a line, \<open>main\<close> returns normally and the status is 0; when standard input
  is at end of file, the status is 1 on every path.
\<close>

theorem C8_exit_status_independent_of_outcome:
  "exit_status (main e) = (if stdin e = None then 1 else 0) \<and>
   (result (main e) = Inr ()) = (stdin e \<noteq> None)"
  by (cases "stdin e") (simp_all add: exit_status_def result_main)

theorem C8_exit_status_independent_of_outcome_witness:
  "exit_status (main \<lparr>base_dir = ''/home/u/album'', entries = [''audio.mp3'', ''cover.png''],
                      tool = (\<lambda>k. Exit 1), stdin = Some []\<rparr>) = 0 \<and>
   exit_status (main \<lparr>base_dir = ''/home/u/album'', entries = [''audio.xyz''],
                      tool = (\<lambda>k. Fails ''not found''), stdin = Some []\<rparr>) = 0"
  using C8_exit_status_independent_of_outcome
      [of "\<lparr>base_dir = ''/home/u/album'', entries = [''audio.mp3'', ''cover.png''],
            tool = (\<lambda>k. Exit 1), stdin = Some []\<rparr>"]
    C8_exit_status_independent_of_outcome
      [of "\<lparr>base_dir = ''/home/u/album'', entries = [''audio.xyz''],
            tool = (\<lambda>k. Fails ''not found''), stdin = Some []\<rparr>"]
  by simp

subsection \<open>C9: only the final extension decides\<close>

text \<open>
  Claim C9. Whether a name that matches \<open>audio.*\<close> is a candidate is decided by its
  final extension alone, lower-cased: a name that ends in a dot and a non-empty \<open>x\<close>
  without a dot is a candidate exactly when it is in the directory and the lower-cased
  \<open>.x\<close> is an allowed extension. So \<open>audio.mp3.txt\<close> is never selected, \<open>audio.x.mp3\<close>
  is a candidate whenever it is in the directory, and it is the file selected when no
  candidate is enumerated before it.
\<close>

theorem C9_final_extension_decides:
  "(CHR ''.'' \<notin> set x \<and> x \<noteq> [] \<and> (\<exists>r. s @ ''.'' @ x = ''audio.'' @ r) \<longrightarrow>
      (Path (base_dir e) (s @ ''.'' @ x) \<in> set (audio_candidates e)) =
      (s @ ''.'' @ x \<in> set (entries e) \<and> lower (''.'' @ x) \<in> AUDIO_EXTS)) \<and>
   audio_path e \<noteq> Some (Path d ''audio.mp3.txt'') \<and>
   (''audio.x.mp3'' \<in> set (entries e) \<longrightarrow>
      Path (base_dir e) ''audio.x.mp3'' \<in> set (audio_candidates e)) \<and>
   audio_path \<lparr>base_dir = d, entries = [''audio.mp3.txt'', ''audio.x.mp3''],
               tool = t, stdin = l\<rparr> = Some (Path d ''audio.x.mp3'')"
proof -
  have general: "CHR ''.'' \<notin> set x \<and> x \<noteq> [] \<and> (\<exists>r. s @ ''.'' @ x = ''audio.'' @ r) \<longrightarrow>
      (Path (base_dir e) (s @ ''.'' @ x) \<in> set (audio_candidates e)) =
      (s @ ''.'' @ x \<in> set (entries e) \<and> lower (''.'' @ x) \<in> AUDIO_EXTS)"
  proof
    assume h: "CHR ''.'' \<notin> set x \<and> x \<noteq> [] \<and> (\<exists>r. s @ ''.'' @ x = ''audio.'' @ r)"
    then have m: "fnmatch (s @ ''.'' @ x) ''audio.*''"
      by (simp only: fnmatch_audio)
    from h have "s \<noteq> []"
      by auto
    with h have "suffix (Path (base_dir e) (s @ ''.'' @ x)) = ''.'' @ x"
      by (intro suffix_final) simp_all
    with m show "(Path (base_dir e) (s @ ''.'' @ x) \<in> set (audio_candidates e)) =
      (s @ ''.'' @ x \<in> set (entries e) \<and> lower (''.'' @ x) \<in> AUDIO_EXTS)"
      by (simp add: audio_candidates_iff)
  qed
  have txt_suffix: "lower (suffix (Path d ''audio.mp3.txt'')) \<notin> AUDIO_EXTS"
    by (simp add: suffix_def lower_def lower_char_def AUDIO_EXTS_def)
  have never: "audio_path e \<noteq> Some (Path d ''audio.mp3.txt'')"
  proof
    assume "audio_path e = Some (Path d ''audio.mp3.txt'')"
    then have "Path d ''audio.mp3.txt'' \<in> set (audio_candidates e)"
      by (rule audio_path_candidate)
    with txt_suffix show False
      by (simp add: audio_candidates_iff)
  qed
  have mp3_suffix: "lower (suffix (Path c ''audio.x.mp3'')) \<in> AUDIO_EXTS" for c
    by (simp add: suffix_def lower_def lower_char_def AUDIO_EXTS_def)
  have eligible: "''audio.x.mp3'' \<in> set (entries e) \<longrightarrow>
      Path (base_dir e) ''audio.x.mp3'' \<in> set (audio_candidates e)"
    by (simp add: audio_candidates_iff mp3_suffix fnmatch_audio)
  have selected: "audio_path \<lparr>base_dir = d, entries = [''audio.mp3.txt'', ''audio.x.mp3''],
               tool = t, stdin = l\<rparr> = Some (Path d ''audio.x.mp3'')"
    using txt_suffix mp3_suffix [of d]
    by (simp add: audio_path_def audio_candidates_def glob_def)
  from general never eligible selected show ?thesis
    by (intro conjI)
qed

theorem C9_final_extension_decides_witness:
  "Path ''/home/u/album'' ''audio.x.mp3''
     \<in> set (audio_candidates \<lparr>base_dir = ''/home/u/album'',
                               entries = [''audio.mp3.txt'', ''audio.x.mp3''],
                               tool = (\<lambda>k. Exit 0), stdin = Some []\<rparr>) \<and>
   Path ''/home/u/album'' ''audio.mp3.txt''
     \<notin> set (audio_candidates \<lparr>base_dir = ''/home/u/album'',
                               entries = [''audio.mp3.txt'', ''audio.x.mp3''],
                               tool = (\<lambda>k. Exit 0), stdin = Some []\<rparr>)"
proof -
  let ?e = "\<lparr>base_dir = ''/home/u/album'', entries = [''audio.mp3.txt'', ''audio.x.mp3''],
             tool = (\<lambda>k. Exit 0), stdin = Some []\<rparr>"
  have mp3: "CHR ''.'' \<notin> set ''mp3'' \<and> ''mp3'' \<noteq> [] \<and>
      (\<exists>r. ''audio.x'' @ ''.'' @ ''mp3'' = ''audio.'' @ r)"
    by simp
  have no_txt: "CHR ''.'' \<notin> set ''txt'' \<and> ''txt'' \<noteq> [] \<and>
      (\<exists>r. ''audio.mp3'' @ ''.'' @ ''txt'' = ''audio.'' @ r)"
    by simp
  have allowed: "lower (''.'' @ ''mp3'') \<in> AUDIO_EXTS" "lower (''.'' @ ''txt'') \<notin> AUDIO_EXTS"
    by (simp_all add: lower_def lower_char_def AUDIO_EXTS_def)
  note mp3_iff = C9_final_extension_decides
      [of "''mp3''" "''audio.x''" ?e, THEN conjunct1, THEN mp, OF mp3]
  note txt_iff = C9_final_extension_decides
      [of "''txt''" "''audio.mp3''" ?e, THEN conjunct1, THEN mp, OF no_txt]
  from mp3_iff txt_iff allowed show ?thesis
    by simp
qed

subsection \<open>C10: the list of missing categories\<close>

text \<open>
  Claim C10. The list of missing categories has at most two entries, in a fixed order:
  it is one of the empty list, the audio label alone, the image label alone, or the audio
  label followed by the image label (the two labels differ). When both inputs are missing,
  the diagnostic prints the audio line immediately before the image line.
\<close>

theorem C10_missing_order:
  "length (missing a i) \<le> 2 \<and>
   missing a i \<in> {[], [label_audio], [label_image], [label_audio, label_image]} \<and>
   (a = None \<and> i = None \<longrightarrow> missing a i = [label_audio, label_image]) \<and>
   label_audio \<noteq> label_image \<and>
   (audio_path e = None \<and> image_path e = None \<longrightarrow>
      trace (main e) =
        [Print (msg_workdir @ base_dir e), Print (replicate 40 CHR ''-''), Print msg_missing,
         Print (''   - '' @ label_audio), Print (''   - '' @ label_image),
         Input msg_prompt])"
proof -
  have len: "length (missing a i) \<le> 2"
    by (simp add: missing_def)
  have shape: "missing a i \<in> {[], [label_audio], [label_image], [label_audio, label_image]}"
    by (simp add: missing_def)
  have both: "a = None \<and> i = None \<longrightarrow> missing a i = [label_audio, label_image]"
    by (simp add: missing_def)
  have differ: "label_audio \<noteq> label_image"
    by (simp add: label_audio_def label_image_def)
  have tr: "audio_path e = None \<and> image_path e = None \<longrightarrow>
      trace (main e) =
        [Print (msg_workdir @ base_dir e), Print (replicate 40 CHR ''-''), Print msg_missing,
         Print (''   - '' @ label_audio), Print (''   - '' @ label_image),
         Input msg_prompt]"
    by (simp add: main_missing input_def missing_def)
  from len shape both differ tr show ?thesis
    by (intro conjI)
qed

theorem C10_missing_order_witness:
  "missing None None = [label_audio, label_image] \<and>
   trace (main \<lparr>base_dir = ''/home/u/album'', entries = [''readme.txt''],
                 tool = (\<lambda>k. Exit 0), stdin = Some []\<rparr>) =
     [Print (msg_workdir @ ''/home/u/album''), Print (replicate 40 CHR ''-''),
      Print msg_missing,
      Print (''   - '' @ label_audio), Print (''   - '' @ label_image),
      Input msg_prompt]"
proof -
  let ?e = "\<lparr>base_dir = ''/home/u/album'', entries = [''readme.txt''],
             tool = (\<lambda>k. Exit 0), stdin = Some []\<rparr>"
  have a: "audio_path ?e = None"
    by (simp add: audio_path_def audio_candidates_def glob_def)
  have i: "image_path ?e = None"
    by (simp add: image_path_def image_candidates_def glob_def)
  from C10_missing_order [of None None ?e] a i show ?thesis
    by simp
qed


end
